theory Spec2Isabelle
  imports Main
begin

section \<open>JavaScript strings, values and plain objects\<close>

text \<open>
  The program is one JavaScript module, \<^verbatim>\<open>cookie-analyzer.js\<close>. A JavaScript string is
  modelled as a \<^typ>\<open>string\<close>; a \<^typ>\<open>char\<close> stands for a code unit below 256. Numbers
  that count occurrences are natural numbers (the program only ever adds 1 to them, far
  below \<open>2^53\<close>).
\<close>

datatype js_error = TypeError | ReferenceError | RangeError

subsection \<open>Strings\<close>

text \<open>\<^verbatim>\<open>s.split(c)\<close> for a one-character separator: never an empty array.\<close>

fun split_on :: "char \<Rightarrow> string \<Rightarrow> string list" where
  "split_on c [] = [[]]"
| "split_on c (x # xs) =
     (if x = c then [] # split_on c xs
      else (x # hd (split_on c xs)) # tl (split_on c xs))"

text \<open>White space and line terminators that \<^verbatim>\<open>trim()\<close> strips, among the code units below 256:
  TAB, LF, VT, FF, CR, SP and NBSP.\<close>

definition is_white_space :: "char \<Rightarrow> bool" where
  "is_white_space c = ((of_char c :: nat) \<in> {9, 10, 11, 12, 13, 32, 160})"

definition trim :: "string \<Rightarrow> string" where
  "trim s = rev (dropWhile is_white_space (rev (dropWhile is_white_space s)))"

text \<open>\<^verbatim>\<open>toLowerCase()\<close> on code units below 256: A-Z, and the Latin-1 capitals except the
  multiplication sign.\<close>

definition to_lower :: "char \<Rightarrow> char" where
  "to_lower c =
     (let n = (of_char c :: nat)
      in if 65 \<le> n \<and> n \<le> 90 then char_of (n + 32)
         else if n = 215 then c
         else if 192 \<le> n \<and> n \<le> 222 then char_of (n + 32)
         else c)"

definition toLowerCase :: "string \<Rightarrow> string" where
  "toLowerCase s = map to_lower s"

subsection \<open>What every plain object inherits\<close>

text \<open>
  An object literal \<^verbatim>\<open>{}\<close> has \<^verbatim>\<open>Object.prototype\<close> as its prototype, so a property
  read \<^verbatim>\<open>obj[key]\<close> that finds no own property continues there. \<^verbatim>\<open>Object.prototype\<close>
  holds eleven built-in functions (recorded with the function's name and its
  \<^verbatim>\<open>length\<close>) and the accessor \<^verbatim>\<open>__proto__\<close>, whose getter returns
  \<^verbatim>\<open>Object.prototype\<close> itself.
\<close>

datatype inherited = Builtin string nat | ObjectPrototype

definition prototype_functions :: "(string \<times> inherited) list" where
  "prototype_functions =
     [(''constructor'', Builtin ''Object'' 1),
      (''__defineGetter__'', Builtin ''__defineGetter__'' 2),
      (''__defineSetter__'', Builtin ''__defineSetter__'' 2),
      (''hasOwnProperty'', Builtin ''hasOwnProperty'' 1),
      (''__lookupGetter__'', Builtin ''__lookupGetter__'' 1),
      (''__lookupSetter__'', Builtin ''__lookupSetter__'' 1),
      (''isPrototypeOf'', Builtin ''isPrototypeOf'' 1),
      (''propertyIsEnumerable'', Builtin ''propertyIsEnumerable'' 1),
      (''toString'', Builtin ''toString'' 0),
      (''valueOf'', Builtin ''valueOf'' 0),
      (''toLocaleString'', Builtin ''toLocaleString'' 0)]"

definition inherited_property :: "string \<Rightarrow> inherited option" where
  "inherited_property k =
     (if k = ''__proto__'' then Some ObjectPrototype else map_of prototype_functions k)"

text \<open>The string an inherited value turns into when it is an operand of \<^verbatim>\<open>+\<close> or is used
  as a property key.\<close>

fun to_text :: "inherited \<Rightarrow> string" where
  "to_text (Builtin name n) = ''function '' @ name @ ''() { [native code] }''"
| "to_text ObjectPrototype = ''[object Object]''"

subsection \<open>Plain objects used as dictionaries\<close>

text \<open>The own properties of an object, in the order of their creation.\<close>

type_synonym 'v object = "(string \<times> 'v) list"

datatype 'v property = Own 'v | Inherited inherited | Undefined

definition get_property :: "'v object \<Rightarrow> string \<Rightarrow> 'v property" where
  "get_property obj k =
     (case map_of obj k of
        Some v \<Rightarrow> Own v
      | None \<Rightarrow> (case inherited_property k of Some i \<Rightarrow> Inherited i | None \<Rightarrow> Undefined))"

text \<open>
  \<^verbatim>\<open>obj[k] = v\<close>: an own property keeps its place and takes the new value; otherwise a new
  own property is created at the end, also when a function of that name is inherited.
  Only the key \<^verbatim>\<open>__proto__\<close> differs: the assignment reaches the inherited setter, which
  ignores a value that is not an object, and the program never assigns an object under a
  key that has an inherited property.
\<close>

fun set_property :: "string \<Rightarrow> 'v \<Rightarrow> 'v object \<Rightarrow> 'v object" where
  "set_property k v [] = (if k = ''__proto__'' then [] else [(k, v)])"
| "set_property k v (p # ps) =
     (if fst p = k then (k, v) # ps else p # set_property k v ps)"

text \<open>
  The order of \<^verbatim>\<open>Object.keys\<close>: the keys that are array indices (the canonical decimal
  form of an integer from 0 to \<open>2^32 - 2\<close>) first, in ascending numeric order, then the other
  keys in the order of their creation.
\<close>

definition is_digit :: "char \<Rightarrow> bool" where
  "is_digit c = (48 \<le> (of_char c :: nat) \<and> (of_char c :: nat) \<le> 57)"

definition digits_value :: "string \<Rightarrow> nat" where
  "digits_value s = foldl (\<lambda>n c. 10 * n + ((of_char c :: nat) - 48)) 0 s"

definition is_array_index :: "string \<Rightarrow> bool" where
  "is_array_index s =
     (s \<noteq> [] \<and> list_all is_digit s \<and> (if hd s = CHR ''0'' then s = ''0'' else True)
      \<and> digits_value s < 4294967295)"

definition key_order :: "string list \<Rightarrow> string list" where
  "key_order ks =
     sort_key digits_value (filter is_array_index ks) @ filter (\<lambda>k. \<not> is_array_index k) ks"

definition object_keys :: "'v object \<Rightarrow> string list" where
  "object_keys obj = key_order (map fst obj)"

definition object_values :: "'v object \<Rightarrow> 'v list" where
  "object_values obj = List.map_filter (map_of obj) (object_keys obj)"

section \<open>The ranker: \<^verbatim>\<open>ProcessLogs.#analyzeLogs\<close>\<close>

text \<open>A value held by \<^verbatim>\<open>freqMap\<close>: a number, or the string that \<^verbatim>\<open>+ 1\<close> makes of an
  inherited function.\<close>

datatype freq = Num nat | Str string

datatype js_number = Finite nat | NaN | NegInfinity

text \<open>
  \<^verbatim>\<open>Number(s)\<close> for a string: white space is trimmed, the empty string is 0, a run of
  decimal digits is its value. The other numeric literals (sign, fraction, exponent,
  radix prefix, \<^verbatim>\<open>Infinity\<close>) are not modelled: every string that reaches this function
  starts with \<^verbatim>\<open>function\<close> or \<^verbatim>\<open>[object\<close>.
\<close>

definition string_to_number :: "string \<Rightarrow> js_number" where
  "string_to_number s =
     (let t = trim s
      in if t = [] then Finite 0
         else if list_all is_digit t then Finite (digits_value t)
         else NaN)"

fun to_number :: "freq \<Rightarrow> js_number" where
  "to_number (Num n) = Finite n"
| "to_number (Str s) = string_to_number s"

text \<open>\<^verbatim>\<open>Math.max(...xs)\<close>: \<^verbatim>\<open>-Infinity\<close> without arguments, \<^verbatim>\<open>NaN\<close> as soon as one
  argument is \<^verbatim>\<open>NaN\<close>.\<close>

fun math_max :: "js_number list \<Rightarrow> js_number" where
  "math_max [] = NegInfinity"
| "math_max (x # xs) =
     (case x of
        NaN \<Rightarrow> NaN
      | NegInfinity \<Rightarrow> math_max xs
      | Finite a \<Rightarrow>
          (case math_max xs of
             NaN \<Rightarrow> NaN
           | NegInfinity \<Rightarrow> Finite a
           | Finite b \<Rightarrow> Finite (max a b)))"

text \<open>\<^verbatim>\<open>freqMap[cookie] === maxFreq\<close>: a string never equals a number, nothing equals
  \<^verbatim>\<open>NaN\<close>.\<close>

fun strict_equals :: "freq property \<Rightarrow> js_number \<Rightarrow> bool" where
  "strict_equals (Own (Num n)) (Finite m) = (n = m)"
| "strict_equals _ _ = False"

text \<open>\<^verbatim>\<open>(freqMap[cookie] ?? 0) + 1\<close>: only \<^verbatim>\<open>undefined\<close> is replaced by 0; a string or an
  inherited function makes \<^verbatim>\<open>+\<close> a concatenation.\<close>

fun increment :: "freq property \<Rightarrow> freq" where
  "increment Undefined = Num 1"
| "increment (Own (Num n)) = Num (n + 1)"
| "increment (Own (Str s)) = Str (s @ ''1'')"
| "increment (Inherited i) = Str (to_text i @ ''1'')"

definition count_cookie :: "freq object \<Rightarrow> string \<Rightarrow> freq object" where
  "count_cookie freqMap cookie =
     set_property cookie (increment (get_property freqMap cookie)) freqMap"

definition no_data_message :: string where
  "no_data_message =
     ''There are no cookies for this date. Please make sure the date is formatted YYYY-MM-DD''"

text \<open>
  The result of \<^verbatim>\<open>#analyzeLogs\<close>: an exception, or the lines it wrote with
  \<^verbatim>\<open>console.log\<close> together with the value returned (\<open>None\<close> for \<^verbatim>\<open>null\<close>).
  \<^verbatim>\<open>logMap[date]\<close> may be an own array, nothing, or an inherited value: a built-in
  function is truthy and has a \<^verbatim>\<open>length\<close>, \<^verbatim>\<open>Object.prototype\<close> is truthy and has none;
  neither can be iterated by \<^verbatim>\<open>for ... of\<close>.

  \<^verbatim>\<open>Math.max(...Object.values(freqMap))\<close> passes one call argument for each own property
  of \<^verbatim>\<open>freqMap\<close>. The language sets no bound on the number of arguments of a call, but
  an engine accepts only so many and raises a RangeError beyond (in Node the bound depends
  on the size of the stack and is of the order of \<open>10^5\<close>). The bound is the parameter
  \<open>max_arguments\<close>.
\<close>

definition analyzeLogs ::
  "nat \<Rightarrow> string list object \<Rightarrow> string \<Rightarrow> js_error + (string list \<times> string list option)" where
  "analyzeLogs max_arguments logMap date =
     (case get_property logMap date of
        Undefined \<Rightarrow> Inr ([no_data_message], None)
      | Inherited (Builtin name n) \<Rightarrow>
          if n = 0 then Inr ([no_data_message], None) else Inl TypeError
      | Inherited ObjectPrototype \<Rightarrow> Inl TypeError
      | Own logs \<Rightarrow>
          if length logs = 0 then Inr ([no_data_message], None)
          else
            let freqMap = foldl count_cookie [] logs
            in if max_arguments < length (object_values freqMap) then Inl RangeError
               else
                 let maxFreq = math_max (map to_number (object_values freqMap));
                     mostUsed = filter (\<lambda>cookie. strict_equals (get_property freqMap cookie) maxFreq)
                                  (object_keys freqMap)
                 in Inr ([], Some mostUsed))"

section \<open>The adapters: \<^verbatim>\<open>parseFileContent\<close>\<close>

text \<open>The base class returns an empty object for every content.\<close>

definition ProcessLogs_parseFileContent :: "string \<Rightarrow> js_error + string list object" where
  "ProcessLogs_parseFileContent logs = Inr []"

text \<open>
  One turn of the loop of \<^verbatim>\<open>ProcessCsvLogs.parseFileContent\<close>, in two parts. First the
  record of a line: the destructuring \<^verbatim>\<open>[cookie, timestamp] = line.split(',')\<close> takes the
  first two fields, a missing second one being \<^verbatim>\<open>undefined\<close>; \<^verbatim>\<open>!x\<close> holds of
  \<^verbatim>\<open>undefined\<close> and of the empty string, and then the line is skipped (\<open>None\<close>);
  otherwise the date is \<^verbatim>\<open>timestamp.split('T')[0]\<close>.
\<close>

definition timestamp_field :: "string list \<Rightarrow> string option" where
  "timestamp_field fields = (case fields of _ # t # _ \<Rightarrow> Some t | _ \<Rightarrow> None)"

definition falsy :: "string option \<Rightarrow> bool" where
  "falsy x = (case x of None \<Rightarrow> True | Some s \<Rightarrow> s = [])"

definition log_record :: "string \<Rightarrow> (string \<times> string) option" where
  "log_record line =
     (let fields = split_on CHR '','' line;
          cookie = hd fields;
          timestamp = timestamp_field fields
      in if cookie = [] \<or> falsy timestamp then None
         else Some (cookie, hd (split_on CHR ''T'' (the timestamp))))"

text \<open>
  Then the bucket. \<^verbatim>\<open>!logMap[date]\<close> holds only when the read finds nothing: an array is
  truthy, and so is an inherited value, on which \<^verbatim>\<open>.push\<close> is \<^verbatim>\<open>undefined\<close>, so that
  the call raises a TypeError.
\<close>

definition parse_line :: "string list object \<Rightarrow> string \<Rightarrow> js_error + string list object" where
  "parse_line logMap line =
     (case log_record line of
        None \<Rightarrow> Inr logMap
      | Some (cookie, date) \<Rightarrow>
          (case get_property logMap date of
             Undefined \<Rightarrow> Inr (set_property date [cookie] (set_property date [] logMap))
           | Own cookies \<Rightarrow> Inr (set_property date (cookies @ [cookie]) logMap)
           | Inherited i \<Rightarrow> Inl TypeError))"

fun parse_lines :: "string list object \<Rightarrow> string list \<Rightarrow> js_error + string list object" where
  "parse_lines logMap [] = Inr logMap"
| "parse_lines logMap (line # rest) =
     (case parse_line logMap line of
        Inl e \<Rightarrow> Inl e
      | Inr logMap' \<Rightarrow> parse_lines logMap' rest)"

definition content_lines :: "string \<Rightarrow> string list" where
  "content_lines content = split_on CHR 0x0A (trim content)"

text \<open>The loop starts at index 1: the line at index 0 is never read.\<close>

definition ProcessCsvLogs_parseFileContent :: "string \<Rightarrow> js_error + string list object" where
  "ProcessCsvLogs_parseFileContent content = parse_lines [] (drop 1 (content_lines content))"

section \<open>The template method and the application\<close>

text \<open>
  What a run leaves behind: the lines written with \<^verbatim>\<open>console.log\<close> and
  \<^verbatim>\<open>console.error\<close>, and how the process ends. An uncaught exception ends the process
  with a non-zero status; the trace that the runtime prints for it is not part of
  \<open>stderr\<close> here.
\<close>

datatype outcome = Completed | Exit nat | Uncaught js_error

record run =
  stdout :: "string list"
  stderr :: "string list"
  status :: outcome

definition findMostUsedCookie ::
  "nat \<Rightarrow> (string \<Rightarrow> js_error + string list object) \<Rightarrow> string \<Rightarrow> string \<Rightarrow> run" where
  "findMostUsedCookie max_arguments parseFileContent timeStamp content =
     (case parseFileContent content of
        Inl e \<Rightarrow> \<lparr>stdout = [], stderr = [], status = Uncaught e\<rparr>
      | Inr parsedLogs \<Rightarrow>
          (case analyzeLogs max_arguments parsedLogs timeStamp of
             Inl e \<Rightarrow> \<lparr>stdout = [], stderr = [], status = Uncaught e\<rparr>
           | Inr (printed, None) \<Rightarrow> \<lparr>stdout = printed, stderr = [], status = Completed\<rparr>
           | Inr (printed, Some analyzedLogs) \<Rightarrow>
               \<lparr>stdout = printed @ analyzedLogs, stderr = [], status = Completed\<rparr>))"

text \<open>
  \<^verbatim>\<open>Utilities.chunk\<close>. Element \<open>i\<close> goes to the chunk of index \<open>floor (i / size)\<close>, which
  is created when \<^verbatim>\<open>chunks[index]\<close> is still \<^verbatim>\<open>undefined\<close>. With a size of at least 1 the
  index grows by at most one from an element to the next, so a chunk is only ever created
  at the end of \<^verbatim>\<open>chunks\<close>; the padding written here for a larger index is never produced
  (for the size 2 of the only call, see lemma \<open>chunk_pairs\<close>). With size 0 the index is
  \<^verbatim>\<open>NaN\<close> or \<^verbatim>\<open>Infinity\<close>, no element receives an array index, and iterating the result
  yields nothing.
\<close>

fun chunk_loop :: "nat \<Rightarrow> nat \<Rightarrow> 'a list \<Rightarrow> 'a list list \<Rightarrow> 'a list list" where
  "chunk_loop sz i [] chunks = chunks"
| "chunk_loop sz i (x # xs) chunks =
     (let index = i div sz;
          chunks' = (if index < length chunks then chunks
                     else chunks @ replicate (index - length chunks) [] @ [[]])
      in chunk_loop sz (i + 1) xs (chunks'[index := chunks' ! index @ [x]]))"

definition chunk :: "'a list \<Rightarrow> nat \<Rightarrow> 'a list list" where
  "chunk array sz = (if sz = 0 then [] else chunk_loop sz 0 array [])"

definition PARAMETERS :: "string object" where
  "PARAMETERS = [(''-f'', ''fileName''), (''-d'', ''timeStamp'')]"

text \<open>
  \<^verbatim>\<open>#parseArguments\<close>. \<^verbatim>\<open>[key, value]\<close> destructures a chunk, a missing element being
  \<^verbatim>\<open>undefined\<close> (\<open>None\<close>). \<^verbatim>\<open>PARAMETERS[key]\<close> is a non-empty string for the two
  flags, an inherited value (truthy, and turned into its text when used as the key of
  \<^verbatim>\<open>argMap\<close>) for the names of \<^verbatim>\<open>Object.prototype\<close>, and \<^verbatim>\<open>undefined\<close> otherwise.
\<close>

definition string_of_undefined :: "string option \<Rightarrow> string" where
  "string_of_undefined k = (case k of None \<Rightarrow> ''undefined'' | Some s \<Rightarrow> s)"

definition nth_opt :: "'a list \<Rightarrow> nat \<Rightarrow> 'a option" where
  "nth_opt xs n = (if n < length xs then Some (xs ! n) else None)"

definition parse_argument ::
  "string option object \<Rightarrow> string list \<Rightarrow> string option object" where
  "parse_argument argMap c =
     (let key = nth_opt c 0; value = nth_opt c 1
      in case get_property PARAMETERS (string_of_undefined key) of
           Undefined \<Rightarrow> argMap
         | Own name \<Rightarrow> if name = [] then argMap else set_property name value argMap
         | Inherited i \<Rightarrow> set_property (to_text i) value argMap)"

definition parseArguments :: "string list \<Rightarrow> string option object" where
  "parseArguments args = foldl parse_argument [] (chunk args 2)"

text \<open>\<^verbatim>\<open>parsedArgs.fileName\<close> and \<^verbatim>\<open>parsedArgs.timeStamp\<close>: \<^verbatim>\<open>undefined\<close> when the property
  is missing or holds \<^verbatim>\<open>undefined\<close>.\<close>

definition argument :: "string option object \<Rightarrow> string \<Rightarrow> string option" where
  "argument argMap name = (case get_property argMap name of Own v \<Rightarrow> v | _ \<Rightarrow> None)"

definition getFileExtension :: "string \<Rightarrow> string" where
  "getFileExtension fileName = toLowerCase (last (split_on CHR ''.'' fileName))"

text \<open>
  \<^verbatim>\<open>#retrieveFileContent\<close>. The file system is a parameter: \<open>Inl message\<close> when
  \<^verbatim>\<open>readFileSync\<close> raises with that message. The handler binds the exception as \<^verbatim>\<open>e\<close>
  and then reads \<^verbatim>\<open>error.message\<close>; no \<^verbatim>\<open>error\<close> is in scope, so the second
  \<^verbatim>\<open>console.error\<close> is never reached and a ReferenceError leaves the handler.
\<close>

type_synonym file_system = "string \<Rightarrow> string + string"

definition retrieveFileContent :: "file_system \<Rightarrow> string \<Rightarrow> (string list \<times> js_error) + string" where
  "retrieveFileContent fs fileName =
     (case fs fileName of
        Inr content \<Rightarrow> Inr content
      | Inl message \<Rightarrow>
          Inl ([''Error: Cannot read file '' @ [CHR 0x27] @ fileName @ [CHR 0x27]], ReferenceError))"

definition usage :: string where
  "usage = ''Usage: node script.js -f <filename> -d <date>''"

definition main :: "nat \<Rightarrow> file_system \<Rightarrow> string list \<Rightarrow> run" where
  "main max_arguments fs args =
     (let parsedArgs = parseArguments args
      in if falsy (argument parsedArgs ''fileName'') then
           \<lparr>stdout = [], stderr = [''Error: Missing required parameter -f (filename)'', usage],
            status = Exit 1\<rparr>
         else if falsy (argument parsedArgs ''timeStamp'') then
           \<lparr>stdout = [], stderr = [''Error: Missing required parameter -d (date)'', usage],
            status = Exit 1\<rparr>
         else
           let fileName = the (argument parsedArgs ''fileName'');
               timeStamp = the (argument parsedArgs ''timeStamp'')
           in case retrieveFileContent fs fileName of
                Inl (printed, e) \<Rightarrow> \<lparr>stdout = [], stderr = printed, status = Uncaught e\<rparr>
              | Inr content \<Rightarrow>
                  if getFileExtension fileName = ''csv''
                  then findMostUsedCookie max_arguments ProcessCsvLogs_parseFileContent timeStamp content
                  else findMostUsedCookie max_arguments ProcessLogs_parseFileContent timeStamp content)"

section \<open>Notions of the specification\<close>

text \<open>
  The specification speaks of the order in which cookies first occur, of a cookie whose
  count is maximal in its bucket, of a malformed line, of the records that survive
  parsing and of the bucket of a date. These definitions follow its words; the theorems
  below compare them with what the program computes.
\<close>

definition first_occurrence_order :: "'a list \<Rightarrow> 'a list" where
  "first_occurrence_order xs = rev (remdups (rev xs))"

definition is_most_frequent :: "string list \<Rightarrow> string \<Rightarrow> bool" where
  "is_most_frequent logs c = list_all (\<lambda>c'. count_list logs c' \<le> count_list logs c) logs"


definition surviving_records :: "string list \<Rightarrow> (string \<times> string) list" where
  "surviving_records lines = List.map_filter log_record lines"

definition bucket_of :: "string \<Rightarrow> string list \<Rightarrow> string list" where
  "bucket_of date lines = map fst (filter (\<lambda>r. snd r = date) (surviving_records lines))"

text \<open>Arguments paired by position, a last flag without a value being paired with
  \<^verbatim>\<open>undefined\<close>; and the value of the last pair that carries a given flag.\<close>

fun argument_pairs :: "'a list \<Rightarrow> ('a \<times> 'a option) list" where
  "argument_pairs [] = []"
| "argument_pairs [k] = [(k, None)]"
| "argument_pairs (k # v # rest) = (k, Some v) # argument_pairs rest"

definition last_value :: "'a \<Rightarrow> ('a \<times> 'a option) list \<Rightarrow> 'a option" where
  "last_value flag pairs =
     (let ps = filter (\<lambda>p. fst p = flag) pairs in if ps = [] then None else snd (last ps))"

definition chunk_of_pair :: "'a \<times> 'a option \<Rightarrow> 'a list" where
  "chunk_of_pair p = (case snd p of None \<Rightarrow> [fst p] | Some v \<Rightarrow> [fst p, v])"

section \<open>Plain objects: reads, writes and key order\<close>

lemma inherited_not_proto: "inherited_property k = None \<Longrightarrow> k \<noteq> ''__proto__''"
  by (auto simp: inherited_property_def)

lemma map_fst_set_property:
  "map fst (set_property k v obj) =
     (if k \<in> fst ` set obj \<or> k = ''__proto__'' then map fst obj else map fst obj @ [k])"
  by (induction obj) auto

lemma map_of_set_property:
  "k \<noteq> ''__proto__'' \<Longrightarrow> map_of (set_property k v obj) = (map_of obj)(k \<mapsto> v)"
  by (induction obj) (auto simp: fun_eq_iff)

lemma set_key_order [simp]: "set (key_order ks) = set ks"
  by (auto simp: key_order_def)

lemma distinct_key_order: "distinct ks \<Longrightarrow> distinct (key_order ks)"
  by (auto simp: key_order_def)

lemma key_order_plain:
  assumes "list_all (\<lambda>k. \<not> is_array_index k) ks"
  shows "key_order ks = ks"
proof -
  have "filter is_array_index ks = []"
    using assms by (simp add: list_all_iff filter_empty_conv)
  moreover have "filter (\<lambda>k. \<not> is_array_index k) ks = ks"
    using assms by (simp add: list_all_iff filter_id_conv)
  ultimately show ?thesis by (simp add: key_order_def)
qed

text \<open>Rules that evaluate the model on a concrete input. \<open>split_on_Cons\<close> replaces the
  defining equation of \<^const>\<open>split_on\<close>, which mentions the recursive call twice.\<close>

lemma split_on_nonempty [simp]: "split_on c s \<noteq> []"
  by (induction s) auto

lemma split_on_Cons:
  "split_on c (x # xs) =
     (if x = c then [] # split_on c xs
      else case split_on c xs of f # fs \<Rightarrow> (x # f) # fs | [] \<Rightarrow> [[x]])"
  by (cases "split_on c xs") simp_all

lemma split_on_absent: "c \<notin> set s \<Longrightarrow> split_on c s = [s]"
  by (induction s) auto

lemmas object_eval = get_property_def inherited_property_def prototype_functions_def
  object_values_def object_keys_def key_order_def is_array_index_def is_digit_def digits_value_def
  List.map_filter_def
lemmas ranker_eval = analyzeLogs_def count_cookie_def string_to_number_def trim_def is_white_space_def
  no_data_message_def
lemmas parser_eval = split_on_Cons ProcessCsvLogs_parseFileContent_def content_lines_def trim_def is_white_space_def
  parse_line_def log_record_def timestamp_field_def falsy_def
lemmas app_eval = main_def parseArguments_def chunk_def parse_argument_def nth_opt_def
  string_of_undefined_def PARAMETERS_def argument_def falsy_def retrieveFileContent_def
  getFileExtension_def toLowerCase_def to_lower_def findMostUsedCookie_def
  ProcessLogs_parseFileContent_def usage_def

section \<open>The frequency map and the ranking\<close>

lemma first_occurrence_order_snoc:
  "first_occurrence_order (xs @ [x]) =
     (if x \<in> set xs then first_occurrence_order xs else first_occurrence_order xs @ [x])"
  by (simp add: first_occurrence_order_def)

lemma set_first_occurrence_order [simp]: "set (first_occurrence_order xs) = set xs"
  by (simp add: first_occurrence_order_def)

lemma distinct_first_occurrence_order [simp]: "distinct (first_occurrence_order xs)"
  by (simp add: first_occurrence_order_def)

lemma freqMap_counts:
  "list_all (\<lambda>c. inherited_property c = None) logs \<Longrightarrow>
     map fst (foldl count_cookie [] logs) = first_occurrence_order logs \<and>
     (\<forall>c. map_of (foldl count_cookie [] logs) c =
            (if c \<in> set logs then Some (Num (count_list logs c)) else None))"
proof (induction logs rule: rev_induct)
  case Nil
  show ?case by (simp add: first_occurrence_order_def)
next
  case (snoc x xs)
  let ?fm = "foldl count_cookie [] xs"
  from snoc.prems have inh: "inherited_property x = None" and rest: "list_all (\<lambda>c. inherited_property c = None) xs"
    by simp_all
  from snoc.IH [OF rest] have keys: "map fst ?fm = first_occurrence_order xs"
    and vals: "\<And>c. map_of ?fm c = (if c \<in> set xs then Some (Num (count_list xs c)) else None)"
    by simp_all
  have np: "x \<noteq> ''__proto__''" using inh by (rule inherited_not_proto)
  have dom: "x \<in> fst ` set ?fm \<longleftrightarrow> x \<in> set xs"
    using keys by (metis set_first_occurrence_order set_map)
  have inc: "increment (get_property ?fm x) = Num (count_list xs x + 1)"
    using vals [of x] inh by (auto simp: get_property_def)
  have step: "foldl count_cookie [] (xs @ [x]) = set_property x (Num (count_list xs x + 1)) ?fm"
    by (simp add: count_cookie_def inc)
  show ?case
    unfolding step
    by (auto simp: map_fst_set_property map_of_set_property np dom keys vals first_occurrence_order_snoc)
qed

lemma math_max_Finite:
  "ns \<noteq> [] \<Longrightarrow> math_max (map Finite ns) = Finite (Max (set ns))"
proof (induction ns)
  case Nil then show ?case by simp
next
  case (Cons n ns)
  show ?case
  proof (cases "ns = []")
    case True then show ?thesis by simp
  next
    case False
    with Cons.IH have "math_max (map Finite ns) = Finite (Max (set ns))" by simp
    with False show ?thesis by (simp add: max.commute)
  qed
qed

lemma is_most_frequent_Max:
  "c \<in> set logs \<Longrightarrow> is_most_frequent logs c \<longleftrightarrow> count_list logs c = Max (count_list logs ` set logs)"
proof -
  assume c: "c \<in> set logs"
  have fin: "finite (count_list logs ` set logs)" by simp
  have ne: "count_list logs ` set logs \<noteq> {}" using c by auto
  show ?thesis
  proof
    assume "is_most_frequent logs c"
    then have le: "\<forall>c'\<in>set logs. count_list logs c' \<le> count_list logs c"
      by (simp add: is_most_frequent_def list_all_iff)
    show "count_list logs c = Max (count_list logs ` set logs)"
      by (rule sym, rule Max_eqI) (use le c fin in auto)
  next
    assume "count_list logs c = Max (count_list logs ` set logs)"
    then show "is_most_frequent logs c"
      by (auto simp: is_most_frequent_def list_all_iff)
  qed
qed

lemma length_key_order [simp]: "length (key_order ks) = length ks"
  by (simp add: key_order_def sum_length_filter_compl)

lemma length_first_occurrence_order [simp]:
  "length (first_occurrence_order xs) = length (remdups xs)"
  by (simp add: first_occurrence_order_def length_remdups_card_conv)

lemma freqMap_values:
  assumes plain: "list_all (\<lambda>c. inherited_property c = None) logs"
  shows "object_keys (foldl count_cookie [] logs) = key_order (first_occurrence_order logs)"
    and "object_values (foldl count_cookie [] logs) =
           map (\<lambda>c. Num (count_list logs c)) (key_order (first_occurrence_order logs))"
proof -
  let ?fm = "foldl count_cookie [] logs"
  let ?ks = "key_order (first_occurrence_order logs)"
  from freqMap_counts [OF plain] have keys: "map fst ?fm = first_occurrence_order logs"
    and vals: "\<And>c. map_of ?fm c = (if c \<in> set logs then Some (Num (count_list logs c)) else None)"
    by simp_all
  show ok: "object_keys ?fm = ?ks" by (simp add: object_keys_def keys)
  show "object_values ?fm = map (\<lambda>c. Num (count_list logs c)) ?ks"
    unfolding object_values_def ok List.map_filter_def
    by (induction ?ks) (auto simp: vals intro!: map_cong filter_True [THEN trans])
qed

lemma analyzeLogs_ranking:
  assumes bucket: "map_of logMap date = Some logs"
    and nonempty: "logs \<noteq> []"
    and plain: "list_all (\<lambda>c. inherited_property c = None) logs"
    and accepted: "length (remdups logs) \<le> max_arguments"
  shows "analyzeLogs max_arguments logMap date =
           Inr ([], Some (filter (is_most_frequent logs) (key_order (first_occurrence_order logs))))"
proof -
  let ?fm = "foldl count_cookie [] logs"
  let ?ks = "key_order (first_occurrence_order logs)"
  from freqMap_counts [OF plain]
  have vals: "\<And>c. map_of ?fm c = (if c \<in> set logs then Some (Num (count_list logs c)) else None)"
    by simp
  note ok = freqMap_values(1) [OF plain] and ov = freqMap_values(2) [OF plain]
  have len: "\<not> max_arguments < length (object_values ?fm)"
    using accepted by (simp add: ov)
  have ksne: "map (count_list logs) ?ks \<noteq> []"
  proof -
    have "set ?ks = set logs" by simp
    then have "?ks \<noteq> []" using nonempty by (metis set_empty)
    then show ?thesis by simp
  qed
  have mx: "math_max (map to_number (object_values ?fm)) = Finite (Max (count_list logs ` set logs))"
    using math_max_Finite [OF ksne] by (simp add: ov comp_def)
  have flt: "filter (\<lambda>cookie. strict_equals (get_property ?fm cookie) (Finite (Max (count_list logs ` set logs)))) ?ks
             = filter (is_most_frequent logs) ?ks"
    by (rule filter_cong) (auto simp: get_property_def vals is_most_frequent_Max)
  have own: "get_property logMap date = Own logs"
    by (simp add: get_property_def bucket)
  show ?thesis
    using nonempty len by (simp add: analyzeLogs_def own ok mx flt)
qed

text \<open>A bucket with more distinct cookies than the engine accepts as call arguments ends
  the ranking in a RangeError.\<close>

lemma analyzeLogs_too_many:
  assumes bucket: "map_of logMap date = Some logs"
    and plain: "list_all (\<lambda>c. inherited_property c = None) logs"
    and refused: "max_arguments < length (remdups logs)"
  shows "analyzeLogs max_arguments logMap date = Inl RangeError"
proof -
  have own: "get_property logMap date = Own logs"
    by (simp add: get_property_def bucket)
  have "logs \<noteq> []" using refused by auto
  moreover have "max_arguments < length (object_values (foldl count_cookie [] logs))"
    using refused by (simp add: freqMap_values(2) [OF plain])
  ultimately show ?thesis by (simp add: analyzeLogs_def own)
qed

text \<open>
  With cookies that name nothing inherited, and no more distinct cookies than the engine
  accepts as call arguments, the winners are the distinct cookies of the bucket whose
  count is maximal, and there is at least one. The bucket of the queried date is all that
  the result depends on.
\<close>

lemma analyzeLogs_winners_set:
  assumes "map_of logMap date = Some logs" and "logs \<noteq> []"
    and "list_all (\<lambda>c. inherited_property c = None) logs"
    and "length (remdups logs) \<le> max_arguments"
  shows "\<exists>winners. analyzeLogs max_arguments logMap date = Inr ([], Some winners) \<and> distinct winners \<and>
           set winners = {c \<in> set logs. is_most_frequent logs c}"
  using analyzeLogs_ranking [OF assms] by (auto simp: distinct_key_order)

lemma analyzeLogs_no_data:
  "get_property logMap date = Undefined \<or> get_property logMap date = Own [] \<Longrightarrow>
     analyzeLogs max_arguments logMap date = Inr ([no_data_message], None)"
  by (auto simp: analyzeLogs_def)

lemma analyzeLogs_winners_nonempty:
  assumes "map_of logMap date = Some logs" and "logs \<noteq> []"
    and "list_all (\<lambda>c. inherited_property c = None) logs"
    and "length (remdups logs) \<le> max_arguments"
  shows "\<exists>winners. analyzeLogs max_arguments logMap date = Inr ([], Some winners) \<and> winners \<noteq> []"
proof -
  have fin: "finite (count_list logs ` set logs)" and ne: "count_list logs ` set logs \<noteq> {}"
    using assms(2) by simp_all
  from Max_in [OF fin ne] obtain c where c: "c \<in> set logs"
    and "count_list logs c = Max (count_list logs ` set logs)" by auto
  then have "is_most_frequent logs c" by (simp add: is_most_frequent_Max)
  with c have "c \<in> set (filter (is_most_frequent logs) (key_order (first_occurrence_order logs)))"
    by simp
  then have "filter (is_most_frequent logs) (key_order (first_occurrence_order logs)) \<noteq> []"
    by (metis empty_iff empty_set)
  with analyzeLogs_ranking [OF assms] show ?thesis by simp
qed

text \<open>
  Claim C1: for a present, non-empty bucket the ranker returns exactly the distinct
  cookieIds whose count in the bucket is maximal. The program does not do so when a
  cookieId is the name of a property that \<^verbatim>\<open>freqMap\<close> inherits: for the bucket
  \<^verbatim>\<open>constructor, AtY0laUfhglK3lC7, constructor\<close> the maximal count is 2, reached by
  \<^verbatim>\<open>constructor\<close> alone, and \<^verbatim>\<open>#analyzeLogs\<close> returns the empty array. The read
  \<^verbatim>\<open>freqMap[cookie]\<close> finds the inherited function, \<^verbatim>\<open>+ 1\<close> makes a string of it,
  \<^verbatim>\<open>Math.max\<close> is \<^verbatim>\<open>NaN\<close> and no count equals it. (An engine that refused a call
  with two arguments would raise a RangeError instead.)
\<close>

theorem ranker_drops_inherited_name:
  "analyzeLogs max_arguments
     [(''2018-12-09'', [''constructor'', ''AtY0laUfhglK3lC7'', ''constructor''])] ''2018-12-09''
     = (if max_arguments < 2 then Inl RangeError else Inr ([], Some []))"
  by (simp add: ranker_eval object_eval)

text \<open>
  Claim C2, as amended: for a non-empty bucket none of whose cookieIds names an inherited
  property, and with no more distinct cookieIds than the engine accepts as call arguments,
  the ranker returns every cookieId tied for the maximal count, in the order of
  \<^verbatim>\<open>Object.keys\<close>: the cookieIds that are array indices first, in ascending numeric
  order, then the others in the order of their first occurrence. When no cookieId of the
  bucket is an array index, this is the first-occurrence order.
\<close>

theorem ranker_order:
  assumes "map_of logMap date = Some logs" and "logs \<noteq> []"
    and "list_all (\<lambda>c. inherited_property c = None) logs"
    and "length (remdups logs) \<le> max_arguments"
  shows "analyzeLogs max_arguments logMap date =
           Inr ([], Some (filter (is_most_frequent logs) (key_order (first_occurrence_order logs))))
         \<and> (list_all (\<lambda>c. \<not> is_array_index c) logs \<longrightarrow>
              analyzeLogs max_arguments logMap date =
                Inr ([], Some (filter (is_most_frequent logs) (first_occurrence_order logs))))"
proof -
  have "key_order (first_occurrence_order logs) = first_occurrence_order logs"
    if "list_all (\<lambda>c. \<not> is_array_index c) logs"
    using that by (intro key_order_plain) (simp add: list_all_iff)
  then show ?thesis using analyzeLogs_ranking [OF assms] by simp
qed

text \<open>The amended claim C2 at two buckets, one with the array indices 9 and 10 among its
  cookieIds and one without array indices, on an engine that accepts 100000 arguments.\<close>

theorem ranker_order_witness:
  "analyzeLogs 100000
     [(''2018-12-09'', [''b'', ''a'', ''10'', ''9'', ''b'', ''a'', ''c'', ''9'', ''10''])] ''2018-12-09''
     = Inr ([], Some [''9'', ''10'', ''b'', ''a''])
   \<and> analyzeLogs 100000 [(''2018-12-08'', [''b'', ''a'', ''b'', ''a'', ''c''])] ''2018-12-08''
     = Inr ([], Some [''b'', ''a''])"
proof -
  have 1: "list_all (\<lambda>c. inherited_property c = None) [''b'', ''a'', ''10'', ''9'', ''b'', ''a'', ''c'', ''9'', ''10'']"
    by (simp add: inherited_property_def prototype_functions_def)
  have 2: "list_all (\<lambda>c. inherited_property c = None) [''b'', ''a'', ''b'', ''a'', ''c'']"
    by (simp add: inherited_property_def prototype_functions_def)
  have 3: "list_all (\<lambda>c. \<not> is_array_index c) [''b'', ''a'', ''b'', ''a'', ''c'']"
    by (simp add: is_array_index_def is_digit_def)
  have 4: "length (remdups [''b'', ''a'', ''10'', ''9'', ''b'', ''a'', ''c'', ''9'', ''10'']) \<le> (100000::nat)"
    by simp
  have 5: "length (remdups [''b'', ''a'', ''b'', ''a'', ''c'']) \<le> (100000::nat)"
    by simp
  from ranker_order [of "[(''2018-12-09'', [''b'', ''a'', ''10'', ''9'', ''b'', ''a'', ''c'', ''9'', ''10''])]"
      "''2018-12-09''", OF _ _ 1 4]
  have a: "analyzeLogs 100000
     [(''2018-12-09'', [''b'', ''a'', ''10'', ''9'', ''b'', ''a'', ''c'', ''9'', ''10''])] ''2018-12-09''
     = Inr ([], Some [''9'', ''10'', ''b'', ''a''])"
    by (simp add: is_most_frequent_def first_occurrence_order_def key_order_def is_array_index_def
          is_digit_def digits_value_def)
  from ranker_order [of "[(''2018-12-08'', [''b'', ''a'', ''b'', ''a'', ''c''])]" "''2018-12-08''", OF _ _ 2 5] 3
  have b: "analyzeLogs 100000 [(''2018-12-08'', [''b'', ''a'', ''b'', ''a'', ''c''])] ''2018-12-08''
     = Inr ([], Some [''b'', ''a''])"
    by (simp add: is_most_frequent_def first_occurrence_order_def key_order_def is_array_index_def
          is_digit_def digits_value_def)
  from a b show ?thesis by simp
qed

text \<open>Claim C2 as stated fails: in the bucket \<^verbatim>\<open>b, 1\<close> both cookieIds occur once and
  \<^verbatim>\<open>b\<close> occurs first, yet \<^verbatim>\<open>1\<close> is returned first.\<close>

theorem ranker_order_counterexample:
  "analyzeLogs 100000 [(''2018-12-09'', [''b'', ''1''])] ''2018-12-09'' = Inr ([], Some [''1'', ''b''])
   \<and> filter (is_most_frequent [''b'', ''1'']) (first_occurrence_order [''b'', ''1'']) = [''b'', ''1'']"
  by (simp add: ranker_eval object_eval is_most_frequent_def first_occurrence_order_def)

text \<open>
  Claim C3: an absent or empty bucket gives the "no data" outcome, and whenever that
  outcome is not signalled the winners are not empty. The program breaks both halves on
  inherited names: the bucket \<^verbatim>\<open>toString\<close> of a present date yields an empty array of
  winners without the "no data" message (a RangeError on an engine that refused a call
  with one argument), and the date \<^verbatim>\<open>constructor\<close>, absent from the map, reads the
  inherited function (truthy, of length 1) and raises a TypeError in \<^verbatim>\<open>for ... of\<close>.
\<close>

theorem no_data_signal_broken:
  "analyzeLogs max_arguments [(''2018-12-09'', [''toString''])] ''2018-12-09''
     = (if max_arguments < 1 then Inl RangeError else Inr ([], Some []))
   \<and> analyzeLogs max_arguments [] ''constructor'' = Inl TypeError"
  by (simp add: ranker_eval object_eval)

section \<open>The tabular adapter\<close>


lemma parse_line_dropped: "log_record line = None \<Longrightarrow> parse_line logMap line = Inr logMap"
  by (simp add: parse_line_def)


lemma surviving_records_Cons:
  "surviving_records (l # ls) =
     (case log_record l of None \<Rightarrow> surviving_records ls | Some r \<Rightarrow> r # surviving_records ls)"
  by (simp add: surviving_records_def List.map_filter_def split: option.splits)

lemma bucket_of_Cons:
  "bucket_of d (l # ls) =
     (case log_record l of
        None \<Rightarrow> bucket_of d ls
      | Some r \<Rightarrow> if snd r = d then fst r # bucket_of d ls else bucket_of d ls)"
  by (simp add: bucket_of_def surviving_records_Cons split: option.splits)

lemma parse_lines_buckets:
  "list_all (\<lambda>r. inherited_property (snd r) = None) (surviving_records lines) \<Longrightarrow>
     \<exists>logMap'. parse_lines logMap lines = Inr logMap' \<and>
       (\<forall>d. map_of logMap' d =
          (case map_of logMap d of
             Some old \<Rightarrow> Some (old @ bucket_of d lines)
           | None \<Rightarrow> if bucket_of d lines = [] then None else Some (bucket_of d lines)))"
proof (induction lines arbitrary: logMap)
  case Nil
  show ?case by (simp add: bucket_of_def surviving_records_def List.map_filter_def split: option.splits)
next
  case (Cons l ls)
  show ?case
  proof (cases "log_record l")
    case None
    with Cons.prems have "list_all (\<lambda>r. inherited_property (snd r) = None) (surviving_records ls)"
      by (simp add: surviving_records_Cons)
    note ih = Cons.IH [OF this, of logMap]
    have bk: "\<And>d. bucket_of d (l # ls) = bucket_of d ls"
      by (simp add: bucket_of_Cons None)
    have pl: "parse_lines logMap (l # ls) = parse_lines logMap ls"
      by (simp add: parse_line_dropped None)
    from ih show ?thesis unfolding bk pl .
  next
    case (Some r)
    obtain c d0 where r: "r = (c, d0)" by (cases r)
    from Cons.prems Some r have inh: "inherited_property d0 = None"
      and rest: "list_all (\<lambda>r. inherited_property (snd r) = None) (surviving_records ls)"
      by (simp_all add: surviving_records_Cons)
    have np: "d0 \<noteq> ''__proto__''" using inh by (rule inherited_not_proto)
    have bk: "\<And>d. bucket_of d (l # ls) = (if d = d0 then c # bucket_of d ls else bucket_of d ls)"
      by (auto simp: bucket_of_Cons Some r)
    define m1 where "m1 = (case map_of logMap d0 of
        Some old \<Rightarrow> set_property d0 (old @ [c]) logMap
      | None \<Rightarrow> set_property d0 [c] (set_property d0 [] logMap))"
    have pl: "parse_line logMap l = Inr m1"
      by (simp add: parse_line_def Some r get_property_def inh m1_def split: option.splits)
    have m1: "map_of m1 = (map_of logMap)(d0 \<mapsto> (case map_of logMap d0 of Some old \<Rightarrow> old @ [c] | None \<Rightarrow> [c]))"
      by (simp add: m1_def map_of_set_property np split: option.splits)
    from Cons.IH [OF rest, of m1] obtain m' where m': "parse_lines m1 ls = Inr m'"
      and v: "\<And>d. map_of m' d = (case map_of m1 d of
             Some old \<Rightarrow> Some (old @ bucket_of d ls)
           | None \<Rightarrow> if bucket_of d ls = [] then None else Some (bucket_of d ls))"
      by blast
    have "parse_lines logMap (l # ls) = Inr m'" by (simp add: pl m')
    moreover have "\<forall>d. map_of m' d =
          (case map_of logMap d of
             Some old \<Rightarrow> Some (old @ bucket_of d (l # ls))
           | None \<Rightarrow> if bucket_of d (l # ls) = [] then None else Some (bucket_of d (l # ls)))"
      by (simp add: v m1 bk split: option.splits)
    ultimately show ?thesis by blast
  qed
qed

lemma parseFileContent_buckets:
  assumes "list_all (\<lambda>r. inherited_property (snd r) = None)
             (surviving_records (drop 1 (content_lines content)))"
  shows "\<exists>logMap. ProcessCsvLogs_parseFileContent content = Inr logMap \<and>
           (\<forall>d. map_of logMap d =
              (if bucket_of d (drop 1 (content_lines content)) = [] then None
               else Some (bucket_of d (drop 1 (content_lines content)))))"
  using parse_lines_buckets [OF assms, of "[]"]
  by (simp add: ProcessCsvLogs_parseFileContent_def)

lemma log_record_fields:
  assumes "split_on CHR '','' line = cookie # timestamp # extra"
    and "cookie \<noteq> []" and "timestamp \<noteq> []"
  shows "log_record line = Some (cookie, hd (split_on CHR ''T'' timestamp))"
  using assms by (simp add: log_record_def timestamp_field_def falsy_def)

lemma bucket_of_member:
  "log_record line = Some (c, d) \<Longrightarrow> line \<in> set lines \<Longrightarrow> c \<in> set (bucket_of d lines)"
  by (induction lines) (auto simp: bucket_of_Cons split: option.splits)




text \<open>
  Claim C5: the line at index 0 is never parsed into a record, whatever it contains. Two
  contents whose lines differ in the first one only give the same result.
\<close>

theorem header_skipped:
  assumes "content_lines c1 = h1 # rest" and "content_lines c2 = h2 # rest"
  shows "ProcessCsvLogs_parseFileContent c1 = ProcessCsvLogs_parseFileContent c2"
  by (simp add: ProcessCsvLogs_parseFileContent_def assms)

text \<open>Claim C5 at a log whose first line has the shape of a record: the cookie \<^verbatim>\<open>A\<close>
  of that line is in no bucket.\<close>

theorem header_skipped_witness:
  "ProcessCsvLogs_parseFileContent ''A,2018-12-09T14:19:00+00:00\<newline>B,2018-12-09T10:13:00+00:00''
   = ProcessCsvLogs_parseFileContent ''cookie,timestamp\<newline>B,2018-12-09T10:13:00+00:00''
   \<and> ProcessCsvLogs_parseFileContent ''A,2018-12-09T14:19:00+00:00\<newline>B,2018-12-09T10:13:00+00:00''
   = Inr [(''2018-12-09'', [''B''])]"
proof -
  have 1: "content_lines ''A,2018-12-09T14:19:00+00:00\<newline>B,2018-12-09T10:13:00+00:00''
     = ''A,2018-12-09T14:19:00+00:00'' # [''B,2018-12-09T10:13:00+00:00'']"
    by (simp add: content_lines_def trim_def is_white_space_def split_on_Cons del: split_on.simps(2))
  have 2: "content_lines ''cookie,timestamp\<newline>B,2018-12-09T10:13:00+00:00''
     = ''cookie,timestamp'' # [''B,2018-12-09T10:13:00+00:00'']"
    by (simp add: content_lines_def trim_def is_white_space_def split_on_Cons del: split_on.simps(2))
  have 3: "ProcessCsvLogs_parseFileContent ''cookie,timestamp\<newline>B,2018-12-09T10:13:00+00:00''
     = Inr [(''2018-12-09'', [''B''])]"
    by (simp add: parser_eval object_eval del: split_on.simps(2))
  from header_skipped [OF 1 2] 3 show ?thesis by simp
qed

text \<open>
  Claim C6: every surviving data line is appended, in input order, to the bucket whose key
  is the part of its timestamp before \<^verbatim>\<open>T\<close>. The program does so as long as no such key
  names an inherited property (lemma \<open>parseFileContent_buckets\<close>); for a key that does,
  \<^verbatim>\<open>logMap[date]\<close> is the inherited value, no bucket is created, \<^verbatim>\<open>.push\<close> is
  \<^verbatim>\<open>undefined\<close> and the whole parse ends in a TypeError, the buckets of the earlier lines
  being lost with it.
\<close>

theorem inherited_date_aborts_parsing:
  "ProcessCsvLogs_parseFileContent
     ''cookie,timestamp\<newline>AtY0laUfhglK3lC7,2018-12-09T14:19:00+00:00\<newline>SAZuXPGUrfbcn5UA,constructorT10:13:00+00:00''
   = Inl TypeError"
  by (simp add: parser_eval object_eval del: split_on.simps(2))

text \<open>
  Claim C9, as amended: a data line with two non-empty fields whose timestamp contains no
  \<^verbatim>\<open>T\<close> is not dropped; its cookieId is appended to the bucket whose key is the whole
  timestamp, and querying that string as the date returns the cookie among the winners
  exactly when no cookieId occurs more often than it in that bucket. This is stated for
  logs in which no date key and no cookieId of that bucket names an inherited property,
  and in which that bucket has no more distinct cookieIds than the engine accepts as call
  arguments.
\<close>

theorem timestamp_without_separator:
  assumes lines: "content_lines content = header # before @ line # after"
    and fields: "split_on CHR '','' line = cookie # timestamp # extra"
    and cookie: "cookie \<noteq> []" and timestamp: "timestamp \<noteq> []"
    and no_separator: "CHR ''T'' \<notin> set timestamp"
    and dates: "list_all (\<lambda>r. inherited_property (snd r) = None)
                  (surviving_records (before @ line # after))"
    and cookies: "list_all (\<lambda>c. inherited_property c = None)
                    (bucket_of timestamp (before @ line # after))"
    and accepted: "length (remdups (bucket_of timestamp (before @ line # after))) \<le> max_arguments"
  shows "\<exists>logMap. ProcessCsvLogs_parseFileContent content = Inr logMap
           \<and> map_of logMap timestamp = Some (bucket_of timestamp (before @ line # after))
           \<and> cookie \<in> set (bucket_of timestamp (before @ line # after))
           \<and> (\<exists>winners. analyzeLogs max_arguments logMap timestamp = Inr ([], Some winners)
                 \<and> (cookie \<in> set winners
                      \<longleftrightarrow> is_most_frequent (bucket_of timestamp (before @ line # after)) cookie))"
proof -
  let ?data = "before @ line # after"
  let ?bucket = "bucket_of timestamp ?data"
  have data: "drop 1 (content_lines content) = ?data" by (simp add: lines)
  have rec: "log_record line = Some (cookie, timestamp)"
    using log_record_fields [OF fields cookie timestamp] split_on_absent [OF no_separator] by simp
  have mem: "cookie \<in> set ?bucket" by (rule bucket_of_member [OF rec]) simp
  then have ne: "?bucket \<noteq> []" by auto
  from parseFileContent_buckets [of content] dates data obtain logMap
    where parsed: "ProcessCsvLogs_parseFileContent content = Inr logMap"
      and bucket: "map_of logMap timestamp = Some ?bucket"
    using ne by auto
  have ranked: "analyzeLogs max_arguments logMap timestamp =
      Inr ([], Some (filter (is_most_frequent ?bucket) (key_order (first_occurrence_order ?bucket))))"
    by (rule analyzeLogs_ranking [OF bucket ne cookies accepted])
  have "cookie \<in> set (filter (is_most_frequent ?bucket) (key_order (first_occurrence_order ?bucket)))
          \<longleftrightarrow> is_most_frequent ?bucket cookie"
    using mem by simp
  with parsed bucket mem ranked show ?thesis by blast
qed

text \<open>The amended claim C9 at a log where the line \<^verbatim>\<open>a,2018-12-09\<close> shares its bucket with
  a line whose timestamp has a time of day, on an engine that accepts 100000 arguments.\<close>

theorem timestamp_without_separator_witness:
  "\<exists>logMap. ProcessCsvLogs_parseFileContent
               ''cookie,timestamp\<newline>b,2018-12-09T10:13:00+00:00\<newline>a,2018-12-09\<newline>c,2018-12-08'' = Inr logMap
     \<and> map_of logMap ''2018-12-09'' = Some [''b'', ''a'']
     \<and> ''a'' \<in> set [''b'', ''a'']
     \<and> (\<exists>winners. analyzeLogs 100000 logMap ''2018-12-09'' = Inr ([], Some winners)
           \<and> ''a'' \<in> set winners)"
proof -
  let ?content = "''cookie,timestamp\<newline>b,2018-12-09T10:13:00+00:00\<newline>a,2018-12-09\<newline>c,2018-12-08''"
  have 1: "content_lines ?content = ''cookie,timestamp'' # [''b,2018-12-09T10:13:00+00:00''] @ ''a,2018-12-09'' # [''c,2018-12-08'']"
    by (simp add: content_lines_def trim_def is_white_space_def split_on_Cons del: split_on.simps(2))
  have 2: "split_on CHR '','' ''a,2018-12-09'' = ''a'' # ''2018-12-09'' # []"
    by (simp add: split_on_Cons del: split_on.simps(2))
  have 3: "''a'' \<noteq> []" and 4: "''2018-12-09'' \<noteq> []" and 5: "CHR ''T'' \<notin> set ''2018-12-09''"
    by simp_all
  have recs: "surviving_records ([''b,2018-12-09T10:13:00+00:00''] @ ''a,2018-12-09'' # [''c,2018-12-08''])
      = [(''b'', ''2018-12-09''), (''a'', ''2018-12-09''), (''c'', ''2018-12-08'')]"
    by (simp add: surviving_records_def List.map_filter_def log_record_def timestamp_field_def falsy_def
          split_on_Cons del: split_on.simps(2))
  have bk: "bucket_of ''2018-12-09'' ([''b,2018-12-09T10:13:00+00:00''] @ ''a,2018-12-09'' # [''c,2018-12-08''])
      = [''b'', ''a'']"
    using recs by (simp add: bucket_of_def)
  have 6: "list_all (\<lambda>r. inherited_property (snd r) = None)
      (surviving_records ([''b,2018-12-09T10:13:00+00:00''] @ ''a,2018-12-09'' # [''c,2018-12-08'']))"
    using recs by (simp add: inherited_property_def prototype_functions_def)
  have 7: "list_all (\<lambda>c. inherited_property c = None)
      (bucket_of ''2018-12-09'' ([''b,2018-12-09T10:13:00+00:00''] @ ''a,2018-12-09'' # [''c,2018-12-08'']))"
    using bk by (simp add: inherited_property_def prototype_functions_def)
  have 8: "length (remdups (bucket_of ''2018-12-09''
      ([''b,2018-12-09T10:13:00+00:00''] @ ''a,2018-12-09'' # [''c,2018-12-08'']))) \<le> (100000::nat)"
    using bk by simp
  have mf: "is_most_frequent [''b'', ''a''] ''a''"
    by (simp add: is_most_frequent_def)
  from timestamp_without_separator [OF 1 2 3 4 5 6 7 8] mf show ?thesis
    unfolding bk by simp
qed

text \<open>Claim C9 as stated fails: the line \<^verbatim>\<open>a,2018-12-09\<close> is bucketed under its whole
  timestamp, but querying \<^verbatim>\<open>2018-12-09\<close> returns only \<^verbatim>\<open>b\<close>, which occurs twice.\<close>

theorem timestamp_without_separator_counterexample:
  "ProcessCsvLogs_parseFileContent ''cookie,timestamp\<newline>b,2018-12-09\<newline>a,2018-12-09\<newline>b,2018-12-09''
     = Inr [(''2018-12-09'', [''b'', ''a'', ''b''])]
   \<and> analyzeLogs 100000 [(''2018-12-09'', [''b'', ''a'', ''b''])] ''2018-12-09'' = Inr ([], Some [''b''])"
  by (simp add: parser_eval ranker_eval object_eval del: split_on.simps(2))

section \<open>The command line\<close>

lemma chunk_loop_pairs:
  "chunk_loop 2 (2 * length chunks) xs chunks = chunks @ map chunk_of_pair (argument_pairs xs)"
proof (induction xs arbitrary: chunks rule: argument_pairs.induct)
  case 1
  show ?case by simp
next
  case (2 k)
  show ?case by (simp add: chunk_of_pair_def)
next
  case (3 k v rest)
  have "chunk_loop 2 (2 * length chunks) (k # v # rest) chunks
          = chunk_loop 2 (2 * length (chunks @ [[k, v]])) rest (chunks @ [[k, v]])"
    by (simp add: nth_append)
  also have "\<dots> = (chunks @ [[k, v]]) @ map chunk_of_pair (argument_pairs rest)"
    by (rule "3.IH")
  finally show ?case by (simp add: chunk_of_pair_def)
qed

lemma chunk_pairs: "chunk args 2 = map chunk_of_pair (argument_pairs args)"
  using chunk_loop_pairs [of "[]" args] by (simp add: chunk_def)

lemma last_value_snoc:
  "last_value flag (ps @ [p]) = (if fst p = flag then snd p else last_value flag ps)"
  by (simp add: last_value_def)

lemma to_text_not_name:
  "to_text i \<noteq> ''fileName''" "to_text i \<noteq> ''timeStamp''" "to_text i \<noteq> ''__proto__''"
  "''fileName'' \<noteq> to_text i" "''timeStamp'' \<noteq> to_text i"
  by (cases i; simp)+

lemma argument_map_of:
  "name = ''fileName'' \<or> name = ''timeStamp'' \<Longrightarrow>
     argument argMap name = (case map_of argMap name of Some v \<Rightarrow> v | None \<Rightarrow> None)"
  by (auto simp: argument_def get_property_def inherited_property_def prototype_functions_def split: option.splits)

lemma nth_opt_chunk_of_pair:
  "nth_opt (chunk_of_pair p) 0 = Some (fst p)" "nth_opt (chunk_of_pair p) (Suc 0) = snd p"
  by (cases "snd p"; simp add: nth_opt_def chunk_of_pair_def)+

lemma get_property_PARAMETERS:
  "get_property PARAMETERS k =
     (if k = ''-f'' then Own ''fileName'' else if k = ''-d'' then Own ''timeStamp''
      else case inherited_property k of Some i \<Rightarrow> Inherited i | None \<Rightarrow> Undefined)"
  by (simp add: get_property_def PARAMETERS_def)

lemma parse_argument_chunk:
  "parse_argument argMap (chunk_of_pair p) =
     (if fst p = ''-f'' then set_property ''fileName'' (snd p) argMap
      else if fst p = ''-d'' then set_property ''timeStamp'' (snd p) argMap
      else case inherited_property (fst p) of
             Some i \<Rightarrow> set_property (to_text i) (snd p) argMap
           | None \<Rightarrow> argMap)"
  by (simp add: parse_argument_def nth_opt_chunk_of_pair string_of_undefined_def
        get_property_PARAMETERS split: option.splits)

lemma parse_argument_map_of:
  "map_of (parse_argument argMap (chunk_of_pair p)) ''fileName'' =
      (if fst p = ''-f'' then Some (snd p) else map_of argMap ''fileName'')"
  "map_of (parse_argument argMap (chunk_of_pair p)) ''timeStamp'' =
      (if fst p = ''-d'' then Some (snd p) else map_of argMap ''timeStamp'')"
  by (simp_all add: parse_argument_chunk map_of_set_property to_text_not_name split: option.splits)

lemma arguments_last:
  "argument (foldl parse_argument [] (map chunk_of_pair ps)) ''fileName'' = last_value ''-f'' ps \<and>
   argument (foldl parse_argument [] (map chunk_of_pair ps)) ''timeStamp'' = last_value ''-d'' ps"
proof (induction ps rule: rev_induct)
  case Nil
  show ?case by (simp add: argument_map_of last_value_def)
next
  case (snoc p ps)
  then show ?case
    by (simp add: argument_map_of parse_argument_map_of last_value_snoc)
qed

lemma parseArguments_last_value:
  "argument (parseArguments args) ''fileName'' = last_value ''-f'' (argument_pairs args) \<and>
   argument (parseArguments args) ''timeStamp'' = last_value ''-d'' (argument_pairs args)"
  by (simp add: parseArguments_def chunk_pairs arguments_last)

lemma main_arguments:
  assumes "f \<noteq> []" and "d \<noteq> []"
  shows "main max_arguments fs [''-f'', f, ''-d'', d] =
     (case retrieveFileContent fs f of
        Inl (printed, e) \<Rightarrow> \<lparr>stdout = [], stderr = printed, status = Uncaught e\<rparr>
      | Inr content \<Rightarrow>
          if getFileExtension f = ''csv''
          then findMostUsedCookie max_arguments ProcessCsvLogs_parseFileContent d content
          else findMostUsedCookie max_arguments ProcessLogs_parseFileContent d content)"
proof -
  have "argument (parseArguments [''-f'', f, ''-d'', d]) ''fileName'' = Some f"
    and "argument (parseArguments [''-f'', f, ''-d'', d]) ''timeStamp'' = Some d"
    by (simp_all add: parseArguments_last_value last_value_def)
  then show ?thesis using assms by (simp add: main_def falsy_def)
qed

lemma other_extension_no_data:
  assumes "f \<noteq> []" and "d \<noteq> []" and "fs f = Inr content" and "getFileExtension f \<noteq> ''csv''"
    and "inherited_property d = None"
  shows "main max_arguments fs [''-f'', f, ''-d'', d] =
           \<lparr>stdout = [no_data_message], stderr = [], status = Completed\<rparr>"
  using assms
  by (simp add: main_arguments retrieveFileContent_def findMostUsedCookie_def
        ProcessLogs_parseFileContent_def analyzeLogs_def get_property_def)

text \<open>
  The arguments are paired strictly by position; the file name is the value of the last
  pair whose flag is \<^verbatim>\<open>-f\<close> and the date the value of the last pair whose flag is
  \<^verbatim>\<open>-d\<close> (\<^verbatim>\<open>undefined\<close> when that pair has no value or no pair carries the flag). A pair
  whose flag is neither of the two and names nothing inherited leaves \<^verbatim>\<open>argMap\<close> as it
  is.
\<close>

lemma parseArguments_pairs:
  "chunk args 2 = map chunk_of_pair (argument_pairs args) \<and>
   argument (parseArguments args) ''fileName'' = last_value ''-f'' (argument_pairs args) \<and>
   argument (parseArguments args) ''timeStamp'' = last_value ''-d'' (argument_pairs args)"
  by (simp add: parseArguments_def chunk_pairs arguments_last)

lemma unknown_flag_skipped:
  assumes "fst p \<noteq> ''-f''" and "fst p \<noteq> ''-d''" and "inherited_property (fst p) = None"
  shows "parse_argument argMap (chunk_of_pair p) = argMap"
  using assms by (simp add: parse_argument_chunk)

text \<open>
  Claim C10: the arguments are paired by position, a pair whose flag is neither \<^verbatim>\<open>-f\<close>
  nor \<^verbatim>\<open>-d\<close> is silently ignored, and the last occurrence of a flag wins. The program
  pairs by position and lets the last occurrence win (lemma \<open>parseArguments_pairs\<close>), and
  it skips a pair whose flag names nothing inherited (lemma \<open>unknown_flag_skipped\<close>). A
  pair whose flag is \<^verbatim>\<open>constructor\<close> is not skipped: \<^verbatim>\<open>PARAMETERS[key]\<close> is the
  inherited function, which is truthy, and the value is stored in \<^verbatim>\<open>argMap\<close> under the
  text of that function, although the result is documented as mapping parameter names to
  arguments.
\<close>

theorem unknown_flag_stored:
  "parseArguments [''-f'', ''cookie_log.csv'', ''constructor'', ''x'', ''-d'', ''2018-12-09'']
     = [(''fileName'', Some ''cookie_log.csv''),
        (''function Object() { [native code] }'', Some ''x''),
        (''timeStamp'', Some ''2018-12-09'')]
   \<and> parseArguments [''-f'', ''cookie_log.csv'', ''-d'', ''2018-12-09'']
     = [(''fileName'', Some ''cookie_log.csv''), (''timeStamp'', Some ''2018-12-09'')]"
  by (simp add: parseArguments_def chunk_def parse_argument_def nth_opt_def string_of_undefined_def
        PARAMETERS_def object_eval)

text \<open>
  Claim C7: for a file whose extension is not \<^verbatim>\<open>csv\<close> the adapter yields an empty map
  and every query date ends in the "no data" message with a successful exit. The program
  does so for a date that names nothing inherited (lemma \<open>other_extension_no_data\<close>);
  for the date \<^verbatim>\<open>constructor\<close> the empty map yields the inherited function and the run
  ends in an uncaught TypeError, without the message.
\<close>

theorem other_extension_crashes_on_inherited_date:
  "main max_arguments (\<lambda>path. Inr ''cookie,timestamp'')
     [''-f'', ''cookie_log.txt'', ''-d'', ''constructor'']
     = \<lparr>stdout = [], stderr = [], status = Uncaught TypeError\<rparr>"
  by (simp add: app_eval ranker_eval object_eval split_on_Cons del: split_on.simps(2))

text \<open>
  Claim C8: for an unreadable file the error stream receives the path and the message of
  the underlying error, and the process exits with a non-zero status. The program writes
  the line with the path; the next statement reads \<^verbatim>\<open>error.message\<close> where the handler
  bound \<^verbatim>\<open>e\<close>, so the message of the underlying error is never written and the run ends
  in an uncaught ReferenceError instead of \<^verbatim>\<open>process.exit(1)\<close>.
\<close>

theorem unreadable_file_message_lost:
  "main max_arguments (\<lambda>path. Inl ''ENOENT: no such file or directory'')
     [''-f'', ''missing.csv'', ''-d'', ''2018-12-09'']
     = \<lparr>stdout = [], stderr = [''Error: Cannot read file '' @ [CHR 0x27] @ ''missing.csv'' @ [CHR 0x27]],
        status = Uncaught ReferenceError\<rparr>"
  by (simp add: app_eval object_eval split_on_Cons del: split_on.simps(2))

end
